theory Spec2Isabelle
  imports Complex_Main
begin

section \<open>Feature extraction for FastPitch: \<^verbatim>\<open>extract_mels.py\<close>\<close>

text \<open>
  A shallow embedding of the duration, chunking, alignment-parsing, trimming and pitch
  normalisation code of \<^verbatim>\<open>extract_mels.py\<close>. Python integers are \<open>int\<close>, times and
  pitch values (Python and NumPy floats) are idealised as \<open>real\<close>, NumPy arrays and
  Torch tensors are lists, and every exception the code can raise is a value of
  \<open>py_error\<close> returned on the left of a sum.
\<close>

subsection \<open>Errors\<close>

text \<open>
  The first eight constructors are Python exceptions. The last two stand for the NumPy
  float operations that do not raise but emit a RuntimeWarning and produce \<^verbatim>\<open>nan\<close> or
  \<^verbatim>\<open>inf\<close>: the mean of an empty array and a division by zero.
\<close>

datatype py_error =
    IndexError
  | ZeroDivisionError
  | ValueError
  | AssertionError
  | UnboundLocalError
  | KeyError
  | RuntimeError
  | OverflowError
  | NanMeanOfEmpty
  | NanDivideByZero

subsection \<open>\<^verbatim>\<open>dur_chunk_sizes\<close> (lines 147--158)\<close>

text \<open>
  A slice bound \<open>m\<close> of \<^verbatim>\<open>xs[:m]\<close> or \<^verbatim>\<open>xs[m:]\<close> as a position in a sequence of length
  \<open>len\<close>: a negative bound counts from the end, and a bound outside the sequence is
  clamped to it.
\<close>

definition slice_index :: "nat \<Rightarrow> int \<Rightarrow> nat" where
  "slice_index len m = (if m < 0 then nat (int len + m) else min (nat m) len)"

text \<open>\<^verbatim>\<open>ret[:m] = v\<close>: every element of the selected prefix becomes \<open>v\<close>.\<close>

definition assign_prefix :: "int \<Rightarrow> 'a \<Rightarrow> 'a list \<Rightarrow> 'a list" where
  "assign_prefix m v ret =
     replicate (slice_index (length ret) m) v @ drop (slice_index (length ret) m) ret"

text \<open>
  \<^verbatim>\<open>
  def dur_chunk_sizes(n, ary):
      ret = np.ones((ary,), dtype=np.int32) * (n // ary)
      ret[:n % ary] = n // ary + 1
      assert ret.sum() == n
      return ret
  \<close>
  \<^verbatim>\<open>np.ones\<close> rejects a negative dimension with a ValueError before the division is
  evaluated, and \<^verbatim>\<open>n // 0\<close> raises ZeroDivisionError. Python's \<^verbatim>\<open>//\<close> and \<^verbatim>\<open>%\<close> are floor
  division and its remainder, which is what \<open>div\<close> and \<open>mod\<close> are on \<open>int\<close>.

  The array has the element type \<^verbatim>\<open>int32\<close>. The Python integer \<^verbatim>\<open>n // ary\<close> is converted
  to that type when the array is multiplied by it, and \<^verbatim>\<open>n // ary + 1\<close> when it is
  assigned to the slice, whether or not the slice selects an element; NumPy raises
  OverflowError for a Python integer outside the range of the type. The elements that
  are stored are therefore inside the range and are kept as integers. \<^verbatim>\<open>ret.sum()\<close>
  adds them up as 64-bit integers.
\<close>

definition int32_range :: "int \<Rightarrow> bool" where
  "int32_range v \<longleftrightarrow> - (2 ^ 31) \<le> v \<and> v < 2 ^ 31"

definition dur_chunk_sizes :: "int \<Rightarrow> int \<Rightarrow> py_error + int list" where
  "dur_chunk_sizes n ary =
     (if ary < 0 then Inl ValueError
      else if ary = 0 then Inl ZeroDivisionError
      else if \<not> int32_range (n div ary) then Inl OverflowError
      else
        let ret = replicate (nat ary) (n div ary)
        in if \<not> int32_range (n div ary + 1) then Inl OverflowError
           else
             let ret = assign_prefix (n mod ary) (n div ary + 1) ret
             in if sum_list ret = n then Inr ret else Inl AssertionError)"

subsection \<open>\<^verbatim>\<open>run_length_encode\<close> (lines 184--194)\<close>

text \<open>
  \<^verbatim>\<open>
  def run_length_encode(symbols):
      run_lengths = []
      dur = 1
      for u0, u1 in zip(symbols, symbols[1:]):
          if u1 == u0:
              dur += 1
          else:
              run_lengths.append([u0, dur])
              dur = 1
      run_lengths.append([u1, dur])
      return run_lengths
  \<close>
  The loop state is \<open>run_lengths\<close>, \<open>dur\<close> and the loop variable \<open>u1\<close>, which the
  statement after the loop reads. \<open>u1\<close> is \<open>None\<close> while no iteration has bound it.
\<close>

fun rle_loop ::
  "('a \<times> 'a) list \<Rightarrow> ('a \<times> int) list \<Rightarrow> int \<Rightarrow> 'a option \<Rightarrow> ('a \<times> int) list \<times> int \<times> 'a option" where
  "rle_loop [] run_lengths dur u1 = (run_lengths, dur, u1)"
| "rle_loop ((u0, u1') # ps) run_lengths dur u1 =
     (if u1' = u0 then rle_loop ps run_lengths (dur + 1) (Some u1')
      else rle_loop ps (run_lengths @ [(u0, dur)]) 1 (Some u1'))"

definition run_length_encode :: "'a list \<Rightarrow> py_error + ('a \<times> int) list" where
  "run_length_encode symbols =
     (case rle_loop (zip symbols (drop 1 symbols)) [] 1 None of
        (run_lengths, dur, None) \<Rightarrow> Inl UnboundLocalError
      | (run_lengths, dur, Some u1) \<Rightarrow> Inr (run_lengths @ [(u1, dur)]))"

subsection \<open>Durations from unit sequences (\<^verbatim>\<open>main\<close>, lines 365--385)\<close>

text \<open>The message \<^verbatim>\<open>Feature length mismatch {fname}: {mel_len} mels, {total_dur} durs\<close>.\<close>

datatype log_entry = FeatureLengthMismatch string int int

record 'a unit_durations =
  units :: "'a list"
  durs :: "int list"
  logged :: "log_entry list"

text \<open>
  The body of the loop for one utterance: \<open>texts_padded\<close> is the utterance's row of
  the padded batch and \<open>text_len\<close> its true length. \<^verbatim>\<open>zip(*rle_text)\<close> separates the
  symbols from the run lengths, \<^verbatim>\<open>durs[-1] += dur_diff\<close> changes the last element, and
  the message is logged when \<^verbatim>\<open>dur_diff != 1\<close>. The record returned holds the symbols
  for the metadata, the durations that are saved, and what was logged.
\<close>

definition durations_from_unit_sequence ::
  "string \<Rightarrow> 'a list \<Rightarrow> int \<Rightarrow> int \<Rightarrow> py_error + 'a unit_durations" where
  "durations_from_unit_sequence fname texts_padded text_len mel_len =
     (let text = take (slice_index (length texts_padded) text_len) texts_padded
      in case run_length_encode text of
           Inl e \<Rightarrow> Inl e
         | Inr rle_text \<Rightarrow>
             let us = map fst rle_text;
                 ds = map snd rle_text;
                 total_dur = sum_list ds;
                 dur_diff = mel_len - total_dur;
                 ds' = (if total_dur \<noteq> mel_len
                        then ds[length ds - 1 := ds ! (length ds - 1) + dur_diff] else ds);
                 log = (if total_dur \<noteq> mel_len \<and> dur_diff \<noteq> 1
                        then [FeatureLengthMismatch fname mel_len total_dur] else [])
             in if sum_list ds' = mel_len
                then Inr \<lparr>units = us, durs = ds', logged = log\<rparr>
                else Inl AssertionError)"

subsection \<open>Durations from attention matrices (\<^verbatim>\<open>main\<close>, lines 326--333)\<close>

text \<open>
  \<^verbatim>\<open>torch.argmax\<close> along the symbol axis: the index of the first maximal entry of a
  row. The scan carries the best index and its value; a row with no entry is rejected
  with an IndexError.
\<close>

fun argmax_scan :: "nat \<times> real \<Rightarrow> nat \<Rightarrow> real list \<Rightarrow> nat \<times> real" where
  "argmax_scan (best, bv) i [] = (best, bv)"
| "argmax_scan (best, bv) i (x # xs) =
     argmax_scan (if bv < x then (i, x) else (best, bv)) (Suc i) xs"

definition argmax :: "real list \<Rightarrow> py_error + nat" where
  "argmax row = (case row of [] \<Rightarrow> Inl IndexError | x # xs \<Rightarrow> Inr (fst (argmax_scan (0, x) 1 xs)))"

fun argmax_rows :: "real list list \<Rightarrow> py_error + nat list" where
  "argmax_rows [] = Inr []"
| "argmax_rows (r # rs) =
     (case argmax r of
        Inl e \<Rightarrow> Inl e
      | Inr i \<Rightarrow> (case argmax_rows rs of Inl e \<Rightarrow> Inl e | Inr js \<Rightarrow> Inr (i # js)))"

text \<open>
  The device that holds the tensors of a batch: the CPU, which is the default, or a
  CUDA device (\<^verbatim>\<open>--cuda\<close>).
\<close>

datatype device = CPU | CUDA

text \<open>
  \<^verbatim>\<open>torch.histc(input, bins, min, max)\<close> on a tensor of integers, which is what
  \<^verbatim>\<open>torch.argmax\<close> returns (64-bit indices) and what line 329 passes on unconverted.
  On the CPU \<^verbatim>\<open>torch.histc\<close> has no implementation for integer tensors and raises
  RuntimeError. On a CUDA device it counts, after its documentation: \<open>bins\<close> bins of
  equal width between \<open>min\<close> and \<open>max\<close>; elements outside the range are ignored; when
  \<open>min\<close> and \<open>max\<close> are both zero the extrema of the data are taken, and a range of width
  zero is widened by one on each side. An element \<open>x\<close> falls into the bin
  \<open>\<lfloor>(x - min) * bins / (max - min)\<rfloor>\<close>, and \<open>x = max\<close> into the last one.
\<close>

definition bin_index :: "int \<Rightarrow> int \<Rightarrow> int \<Rightarrow> int \<Rightarrow> int" where
  "bin_index lo hi bins x =
     (let pos = ((x - lo) * bins) div (hi - lo) in if pos = bins then pos - 1 else pos)"

definition histc :: "device \<Rightarrow> int list \<Rightarrow> int \<Rightarrow> int \<Rightarrow> int \<Rightarrow> py_error + int list" where
  "histc dev input bins mn mx =
     (if dev = CPU then Inl RuntimeError
      else if bins \<le> 0 \<or> mx < mn then Inl RuntimeError
      else
        let (lo, hi) = (if mn = 0 \<and> mx = 0 \<and> input \<noteq> []
                        then (Min (set input), Max (set input)) else (mn, mx));
            (lo, hi) = (if lo = hi then (lo - 1, hi + 1) else (lo, hi))
        in Inr (map (\<lambda>b. int (length (filter (\<lambda>x. lo \<le> x \<and> x \<le> hi \<and> bin_index lo hi bins x = int b) input)))
                    [0..<nat bins]))"

text \<open>
  \<^verbatim>\<open>
  text_len = text_lens[j]
  ali = ali[:mel_lens[j],:text_len]
  dur = torch.histc(torch.argmax(ali, dim=1), min=0, max=text_len-1, bins=text_len)
  \<close>
  The alignment \<open>ali\<close> of an utterance is the list of its rows, one per frame, and
  \<open>dev\<close> is the device of the tensors.
\<close>

definition durations_from_attention ::
  "device \<Rightarrow> real list list \<Rightarrow> int \<Rightarrow> int \<Rightarrow> py_error + int list" where
  "durations_from_attention dev ali mel_len text_len =
     (let ali = map (\<lambda>row. take (slice_index (length row) text_len) row)
                    (take (slice_index (length ali) mel_len) ali)
      in case argmax_rows ali of
           Inl e \<Rightarrow> Inl e
         | Inr idx \<Rightarrow> histc dev (map int idx) text_len 0 (text_len - 1))"

subsection \<open>\<^verbatim>\<open>parse_textgrid\<close> (lines 161--181)\<close>

record interval =
  start_time :: real
  end_time :: real
  interval_text :: string

definition sil_phones :: "string list" where
  "sil_phones = [''sil'', ''sp'', ''spn'', '''']"

text \<open>
  The loop over \<^verbatim>\<open>enumerate(tier._objects)\<close>; \<open>n\<close> is \<^verbatim>\<open>len(tier)\<close>. The division by a
  \<open>hop_length\<close> of zero raises ZeroDivisionError. The labels do not depend on the times.
  The frame counts are those of the exact products and quotients; the floating-point
  computation of the source can round a boundary that is a whole number of frames to
  the other side, and then moves one frame between two neighbouring intervals.
\<close>

fun parse_loop ::
  "nat \<Rightarrow> nat \<Rightarrow> interval list \<Rightarrow> int \<Rightarrow> int \<Rightarrow> string list \<Rightarrow> int list
     \<Rightarrow> py_error + (string list \<times> int list)" where
  "parse_loop i n [] sampling_rate hop_length phones durations = Inr (phones, durations)"
| "parse_loop i n (t # ts) sampling_rate hop_length phones durations =
     (let s = start_time t; e = end_time t; p = interval_text t;
          phones = (if p \<notin> set sil_phones then phones @ [p]
                    else if i = 0 \<or> int i = int n - 1 then phones @ [''sil'']
                    else phones @ [''sp''])
      in if hop_length = 0 then Inl ZeroDivisionError
         else parse_loop (Suc i) n ts sampling_rate hop_length phones
                (durations @ [\<lceil>e * real_of_int sampling_rate / real_of_int hop_length\<rceil>
                              - \<lceil>s * real_of_int sampling_rate / real_of_int hop_length\<rceil>]))"

text \<open>\<^verbatim>\<open>tier[0]\<close> and \<^verbatim>\<open>tier[-1]\<close> raise IndexError on a tier with no interval.\<close>

definition parse_textgrid ::
  "interval list \<Rightarrow> int \<Rightarrow> int \<Rightarrow> py_error + (string list \<times> int list \<times> real \<times> real)" where
  "parse_textgrid tier sampling_rate hop_length =
     (case tier of
        [] \<Rightarrow> Inl IndexError
      | _ # _ \<Rightarrow>
          (case parse_loop 0 (length tier) tier sampling_rate hop_length [] [] of
             Inl e \<Rightarrow> Inl e
           | Inr (phones, durations) \<Rightarrow>
               Inr (phones, durations, start_time (hd tier), end_time (last tier))))"

subsection \<open>Durations from alignment files (\<^verbatim>\<open>main\<close>, lines 349--358)\<close>


subsection \<open>Start-up checks (\<^verbatim>\<open>main\<close>, lines 252--260)\<close>

text \<open>The command-line flags that select what is extracted.\<close>

record args =
  extract_mels_teacher :: bool
  extract_durations :: bool
  extract_attentions :: bool
  extract_pitch_mel :: bool
  extract_pitch_char :: bool
  extract_pitch_trichar :: bool
  extract_durs_from_textgrids :: bool
  extract_durs_from_unit_sequences :: bool
  trim_silence :: "real option"

text \<open>
  \<^verbatim>\<open>
  if len(unk_args) > 0:
      raise ValueError(f'Invalid options {unk_args}')
  if args.extract_pitch_char:
      assert (args.extract_durations or
              args.extract_durs_from_textgrids or
              args.extract_durs_from_unit_sequences), \
          "Durations required for pitch extraction"
  \<close>
\<close>

definition check_args :: "args \<Rightarrow> string list \<Rightarrow> py_error + unit" where
  "check_args a unk_args =
     (if length unk_args > 0 then Inl ValueError
      else if extract_pitch_char a
              \<and> \<not> (extract_durations a \<or> extract_durs_from_textgrids a
                     \<or> extract_durs_from_unit_sequences a)
           then Inl AssertionError
      else Inr ())"

text \<open>
  The body of the loop over the batches (lines 301--448) as the sequence of its stages,
  for a batch that is not empty. Each stage is guarded by the flags as in the source.
  What a stage does with the data of the batch is not modelled here: the output
  directories are taken to exist, and the data to pass the checks of the stage. What
  is modelled is which variables a stage finds assigned. The variable \<open>durations\<close> is
  assigned only inside the three duration stages; the pitch stage iterates over it,
  which raises UnboundLocalError when none of them ran, and with \<^verbatim>\<open>--trim-silence\<close> it
  reads \<open>start_times\<close>, which only the TextGrid stage assigns. The trimming stage starts
  with the assertion that TextGrid durations are on, and it looks the utterance up in
  \<^verbatim>\<open>pitch_vecs['char']\<close>, which only the pitch stage fills: without a pitch flag the
  lookup raises KeyError.
\<close>

datatype stage =
    SaveMels
  | ModelForward
  | SaveTeacherMels
  | SaveAttentions
  | DurationsFromAttention
  | DurationsFromTextgrids
  | DurationsFromUnits
  | CalculatePitch
  | TrimSilence

definition first_batch :: "args \<Rightarrow> stage list \<times> py_error option" where
  "first_batch a =
     (let stages =
            [SaveMels]
            @ (if extract_mels_teacher a \<or> extract_durations a \<or> extract_attentions a
               then [ModelForward] else [])
            @ (if extract_mels_teacher a then [SaveTeacherMels] else [])
            @ (if extract_attentions a then [SaveAttentions] else [])
            @ (if extract_durations a then [DurationsFromAttention] else [])
            @ (if extract_durs_from_textgrids a then [DurationsFromTextgrids] else [])
            @ (if extract_durs_from_unit_sequences a then [DurationsFromUnits] else []);
          durations_bound = (extract_durations a \<or> extract_durs_from_textgrids a
                             \<or> extract_durs_from_unit_sequences a);
          pitch = (extract_pitch_mel a \<or> extract_pitch_char a \<or> extract_pitch_trichar a)
      in if pitch \<and> \<not> durations_bound then (stages, Some UnboundLocalError)
         else if pitch \<and> trim_silence a \<noteq> None \<and> \<not> extract_durs_from_textgrids a
         then (stages, Some UnboundLocalError)
         else
           let stages = stages @ (if pitch then [CalculatePitch] else [])
           in case trim_silence a of
                None \<Rightarrow> (stages, None)
              | Some _ \<Rightarrow>
                  if \<not> extract_durs_from_textgrids a then (stages, Some AssertionError)
                  else if \<not> pitch then (stages, Some KeyError)
                  else (stages @ [TrimSilence], None))"

text \<open>
  \<open>main\<close> up to the end of the first batch of a dataset that has one: the stages that
  ran, and the exception that ended the run, if any.
\<close>

definition main_first_batch :: "args \<Rightarrow> string list \<Rightarrow> stage list \<times> py_error option" where
  "main_first_batch a unk_args =
     (case check_args a unk_args of
        Inl e \<Rightarrow> ([], Some e)
      | Inr _ \<Rightarrow> first_batch a)"

subsection \<open>Silence trimming (\<^verbatim>\<open>main\<close>, lines 400--448)\<close>

text \<open>A slice bound: \<^verbatim>\<open>None\<close> or an integer.\<close>

datatype bound = PyNone | PyInt int

text \<open>\<^verbatim>\<open>xs[start:stop]\<close> with step one.\<close>

definition py_slice :: "bound \<Rightarrow> bound \<Rightarrow> 'a list \<Rightarrow> 'a list" where
  "py_slice start stop xs =
     (let lo = (case start of PyNone \<Rightarrow> 0 | PyInt i \<Rightarrow> slice_index (length xs) i);
          hi = (case stop of PyNone \<Rightarrow> length xs | PyInt i \<Rightarrow> slice_index (length xs) i)
      in take (hi - lo) (drop lo xs))"

text \<open>\<^verbatim>\<open>np.round\<close> rounds a half to the even neighbour.\<close>

definition np_round :: "real \<Rightarrow> int" where
  "np_round x =
     (let f = \<lfloor>x\<rfloor>; d = x - real_of_int f
      in if d < 1 / 2 then f else if 1 / 2 < d then f + 1 else if even f then f else f + 1)"

text \<open>
  \<^verbatim>\<open>
  keep_sil_frames = args.trim_silence
  if keep_sil_frames > 0:
      keep_sil_frames = np.round(keep_sil_frames * args.sampling_rate / args.hop_length)
  keep_sil_frames = int(keep_sil_frames)
  \<close>
  \<^verbatim>\<open>int\<close> truncates towards zero, which on a value that is not positive is the ceiling.
\<close>

definition keep_sil_frames :: "real \<Rightarrow> int \<Rightarrow> int \<Rightarrow> py_error + int" where
  "keep_sil_frames seconds sampling_rate hop_length =
     (if seconds > 0
      then (if hop_length = 0 then Inl ZeroDivisionError
            else Inr (np_round (seconds * real_of_int sampling_rate / real_of_int hop_length)))
      else Inr \<lceil>seconds\<rceil>)"

text \<open>\<^verbatim>\<open>xs[mask]\<close> with a boolean mask of the length of \<open>xs\<close>.\<close>

definition mask_select :: "bool list \<Rightarrow> 'a list \<Rightarrow> 'a list" where
  "mask_select sel xs = map snd (filter fst (zip sel xs))"

text \<open>\<^verbatim>\<open>dur.put(index, source)\<close>: the element at each index is replaced by its source value.\<close>

fun put :: "'a list \<Rightarrow> nat list \<Rightarrow> 'a list \<Rightarrow> 'a list" where
  "put xs (i # idx) (v # vs) = put (xs[i := v]) idx vs"
| "put xs _ _ = xs"

record 'm trimmed =
  t_text :: "string list"
  t_mel :: "'m list"
  t_dur :: "int list"
  t_pitch :: "real list"
  t_bounds :: "bound \<times> bound"

text \<open>
  The body of the trimming loop for utterance \<open>j\<close> of a batch. \<open>seconds\<close> is
  \<^verbatim>\<open>args.trim_silence\<close>, \<open>keep\<close> the value of \<^verbatim>\<open>keep_sil_frames\<close>, \<open>n_texts\<close> is
  \<^verbatim>\<open>len(texts)\<close>, the number of utterances of the batch, \<open>symbols\<close> and \<open>durations\<close> are
  \<^verbatim>\<open>texts[j]\<close> and \<^verbatim>\<open>durations[j]\<close>, \<open>mel_padded\<close> is the list of the frames of
  \<^verbatim>\<open>mels_padded[j]\<close>, and \<open>pitch_char\<close> is the entry of \<^verbatim>\<open>pitch_vecs['char']\<close>, if there is
  one. \<open>trim_start\<close> and \<open>trim_end\<close> are variables of \<open>main\<close>: \<open>prev\<close> holds the values an
  earlier iteration left in them, or \<open>None\<close> when they are still unbound.
  \<^verbatim>\<open>
  sil_idx = np.where(text == 'sil')
  sil_durs = durations[j][sil_idx]
  trim_durs = np.array([d - keep_sil_frames if d > keep_sil_frames else 0 for d in sil_durs])
  if len(trim_durs) == 2:
      trim_start, trim_end = trim_durs
      trim_end = -trim_end
  elif sil_durs[0] == 0:
      trim_start, trim_end = trim_durs[0], None
  elif sil_durs[0] == len(texts) - 1:
      trim_start, trim_end = None, -trim_durs[0]
  if trim_end == 0:
      trim_end = None
  if args.trim_silence == 0:
      sil_mask = text != "sil"
  else:
      sil_mask = np.ones_like(text, dtype=bool)
  text = text[sil_mask]
  mel = mels_padded[j][:, :mel_lens[j]].cpu()
  mel = mel[:, trim_start:trim_end]
  dur = durations[j]
  dur = dur.put(torch.tensor(sil_idx), sil_durs - trim_durs)
  dur = dur[sil_mask]
  assert mel.shape[1] == sum(dur)
  pitch = pitch_vecs['char'][fnames[j]]
  pitch = pitch[sil_mask]
  assert len(pitch) == len(dur)
  \<close>
\<close>

definition trim_utterance ::
  "real \<Rightarrow> int \<Rightarrow> nat \<Rightarrow> (bound \<times> bound) option \<Rightarrow> string list \<Rightarrow> int list \<Rightarrow> 'm list \<Rightarrow> int
     \<Rightarrow> real list option \<Rightarrow> py_error + 'm trimmed" where
  "trim_utterance seconds keep n_texts prev symbols durations mel_padded mel_len pitch_char =
     (let sil_idx = filter (\<lambda>i. symbols ! i = ''sil'') [0..<length symbols]
      in if \<exists>i\<in>set sil_idx. length durations \<le> i then Inl IndexError
      else
        let sil_durs = map (\<lambda>i. durations ! i) sil_idx;
            trim_durs = map (\<lambda>d. if d > keep then d - keep else 0) sil_durs
        in if length trim_durs \<noteq> 2 \<and> sil_durs = [] then Inl IndexError
        else
          case (if length trim_durs = 2 then Some (PyInt (trim_durs ! 0), PyInt (- (trim_durs ! 1)))
                else if sil_durs ! 0 = 0 then Some (PyInt (trim_durs ! 0), PyNone)
                else if sil_durs ! 0 = int n_texts - 1 then Some (PyNone, PyInt (- (trim_durs ! 0)))
                else prev) of
            None \<Rightarrow> Inl UnboundLocalError
          | Some (trim_start, trim_end) \<Rightarrow>
              let trim_end = (if trim_end = PyInt 0 then PyNone else trim_end);
                  sil_mask = (if seconds = 0 then map (\<lambda>s. s \<noteq> ''sil'') symbols
                              else map (\<lambda>s. True) symbols);
                  symbols' = mask_select sil_mask symbols;
                  mel = py_slice PyNone (PyInt mel_len) mel_padded;
                  mel = py_slice trim_start trim_end mel;
                  dur = put durations sil_idx (map2 (-) sil_durs trim_durs);
                  dur = mask_select sil_mask dur
              in if int (length mel) \<noteq> sum_list dur then Inl AssertionError
                 else
                   case pitch_char of
                     None \<Rightarrow> Inl KeyError
                   | Some pitch \<Rightarrow>
                       if length pitch \<noteq> length sil_mask then Inl IndexError
                       else
                         let pitch = mask_select sil_mask pitch
                         in if length pitch \<noteq> length dur then Inl AssertionError
                            else Inr \<lparr>t_text = symbols', t_mel = mel, t_dur = dur, t_pitch = pitch,
                                      t_bounds = (trim_start, trim_end)\<rparr>)"

subsection \<open>\<^verbatim>\<open>normalize_pitch_vectors\<close> (lines 229--240)\<close>

text \<open>\<^verbatim>\<open>v[np.where(v != 0.0)[0]]\<close> and \<^verbatim>\<open>np.where(v == 0.0)[0]\<close>.\<close>

definition nonzero_values :: "real list \<Rightarrow> real list" where
  "nonzero_values v = filter (\<lambda>x. x \<noteq> 0) v"

definition zero_idxs :: "real list \<Rightarrow> nat list" where
  "zero_idxs v = filter (\<lambda>i. v ! i = 0) [0..<length v]"

text \<open>\<^verbatim>\<open>np.mean\<close> and \<^verbatim>\<open>np.std\<close> (the population standard deviation) of a non-empty array.\<close>

definition np_mean :: "real list \<Rightarrow> real" where
  "np_mean xs = sum_list xs / real (length xs)"

definition np_std :: "real list \<Rightarrow> real" where
  "np_std xs = sqrt (np_mean (map (\<lambda>x. (x - np_mean xs)\<^sup>2) xs))"

text \<open>
  The body of the second loop on one vector: \<^verbatim>\<open>v -= mean\<close>, \<^verbatim>\<open>v /= std\<close>, and
  \<^verbatim>\<open>v[zero_idxs] = 0.0\<close> with the indices taken before the two updates.
\<close>

definition normalize_vector :: "real \<Rightarrow> real \<Rightarrow> real list \<Rightarrow> real list" where
  "normalize_vector mean std v =
     (let idxs = zero_idxs v;
          v = map (\<lambda>x. x - mean) v;
          v = map (\<lambda>x. x / std) v
      in fold (\<lambda>i w. w[i := 0]) idxs v)"

text \<open>
  \<^verbatim>\<open>
  def normalize_pitch_vectors(pitch_vecs):
      nonzeros = np.concatenate([v[np.where(v != 0.0)[0]]
                                 for v in pitch_vecs.values()])
      mean, std = np.mean(nonzeros), np.std(nonzeros)
      for v in pitch_vecs.values():
          zero_idxs = np.where(v == 0.0)[0]
          v -= mean
          v /= std
          v[zero_idxs] = 0.0
      return mean, std
  \<close>
  The dictionary is the list of its items in insertion order, \<open>pooled_nonzeros\<close> is the
  array \<open>nonzeros\<close> of the non-zero values of all its vectors, and the function returns
  the updated dictionary with the mean and the standard deviation. \<^verbatim>\<open>np.concatenate\<close>
  raises ValueError on an empty list of arrays. NumPy does not raise on the mean of no
  value nor on a division by zero: it warns and computes \<^verbatim>\<open>nan\<close> or \<^verbatim>\<open>inf\<close>. The
  function has no branch for either; the model marks the two outcomes, which have no
  value among the reals, as \<open>NanMeanOfEmpty\<close> and \<open>NanDivideByZero\<close>. The mean and the
  standard deviation are those of the reals; in floating point the deviation of equal
  values can be a rounding residue instead of zero, so the model is that of the source
  where the pooled values are not all equal.
\<close>

definition pooled_nonzeros :: "(string \<times> real list) list \<Rightarrow> real list" where
  "pooled_nonzeros pitch_vecs = concat (map (\<lambda>(k, v). nonzero_values v) pitch_vecs)"

definition normalize_pitch_vectors ::
  "(string \<times> real list) list \<Rightarrow> py_error + ((string \<times> real list) list \<times> real \<times> real)" where
  "normalize_pitch_vectors pitch_vecs =
     (if pitch_vecs = [] then Inl ValueError
      else
        let nonzeros = pooled_nonzeros pitch_vecs
        in if nonzeros = [] then Inl NanMeanOfEmpty
           else
             let mean = np_mean nonzeros; std = np_std nonzeros
             in if std = 0 then Inl NanDivideByZero
                else Inr (map (\<lambda>(k, v). (k, normalize_vector mean std v)) pitch_vecs, mean, std))"

subsection \<open>A synthetic alignment\<close>

text \<open>
  The test input of the round trip through the attention strategy, after the
  specification: the attention matrix whose rows are one-hot and realise the durations
  \<open>ds\<close>, that is \<open>ds ! k\<close> consecutive frames with the weight 1 on symbol \<open>k\<close>.
\<close>

definition one_hot :: "nat \<Rightarrow> nat \<Rightarrow> real list" where
  "one_hot T k = (replicate T 0)[k := 1]"

definition one_hot_alignment :: "int list \<Rightarrow> real list list" where
  "one_hot_alignment ds =
     concat (map (\<lambda>(k, d). replicate (nat d) (one_hot (length ds) k)) (enumerate 0 ds))"

section \<open>Properties\<close>

subsection \<open>Chunk splitting\<close>

lemma sum_list_replicate_int: "sum_list (replicate m (c::int)) = int m * c"
  by (induction m) (simp_all add: algebra_simps)

lemma chunks_shape:
  assumes "0 < k"
  shows "assign_prefix (n mod k) (n div k + 1) (replicate (nat k) (n div k)) =
           replicate (nat (n mod k)) (n div k + 1) @ replicate (nat (k - n mod k)) (n div k)"
proof -
  have m: "0 \<le> n mod k" "n mod k < k"
    using assms by simp_all
  then have "slice_index (nat k) (n mod k) = nat (n mod k)"
    by (simp add: slice_index_def min_def)
  moreover have "nat k - nat (n mod k) = nat (k - n mod k)"
    using m by simp
  ultimately show ?thesis
    by (simp add: assign_prefix_def)
qed

lemma chunks_sum:
  assumes "0 < k"
  shows "sum_list (replicate (nat (n mod k)) (n div k + 1) @ replicate (nat (k - n mod k)) (n div k)) = n"
proof -
  have m: "0 \<le> n mod k" "n mod k < k"
    using assms by simp_all
  have "sum_list (replicate (nat (n mod k)) (n div k + 1) @ replicate (nat (k - n mod k)) (n div k))
          = (n mod k) * (n div k + 1) + (k - n mod k) * (n div k)"
    using m by (simp add: sum_list_replicate_int)
  also have "\<dots> = k * (n div k) + n mod k"
    by (simp add: algebra_simps)
  also have "\<dots> = n"
    by simp
  finally show ?thesis .
qed

lemma dur_chunk_sizes_eq:
  assumes "0 < k" and "int32_range (n div k)" and "int32_range (n div k + 1)"
  shows "dur_chunk_sizes n k =
           Inr (replicate (nat (n mod k)) (n div k + 1) @ replicate (nat (k - n mod k)) (n div k))"
proof -
  let ?ret = "replicate (nat (n mod k)) (n div k + 1) @ replicate (nat (k - n mod k)) (n div k)"
  have "dur_chunk_sizes n k = (if sum_list ?ret = n then Inr ?ret else Inl AssertionError)"
    using assms unfolding dur_chunk_sizes_def Let_def chunks_shape [OF assms(1)] by simp
  then show ?thesis
    unfolding chunks_sum [OF assms(1)] by simp
qed

lemma dur_chunk_sizes_overflow:
  assumes "0 < k" and "2 ^ 31 \<le> n div k + 1"
  shows "dur_chunk_sizes n k = Inl OverflowError"
  using assms by (simp add: dur_chunk_sizes_def int32_range_def Let_def)

lemma ceiling_div_rem:
  assumes "0 < k" "n mod k \<noteq> 0"
  shows "\<lceil>real_of_int n / real_of_int k\<rceil> = n div k + 1"
proof -
  have "0 \<le> n mod k"
    using assms(1) by simp
  with assms(2) have "0 < n mod k"
    by linarith
  moreover have "n mod k < k"
    using assms(1) by simp
  ultimately have m: "0 < n mod k" "n mod k < k" .
  have n: "real_of_int n = real_of_int k * real_of_int (n div k) + real_of_int (n mod k)"
    by (metis mult_div_mod_eq of_int_add of_int_mult)
  have q: "real_of_int n / real_of_int k = real_of_int (n div k) + real_of_int (n mod k) / real_of_int k"
    using assms(1) by (subst n) (simp add: field_simps)
  have "0 < real_of_int (n mod k) / real_of_int k" "real_of_int (n mod k) / real_of_int k < 1"
    using m assms(1) by simp_all
  then show ?thesis
    unfolding q by (intro ceiling_unique) simp_all
qed

text \<open>
  C6, as the specification states it, fails where a part does not fit the 32-bit
  elements of the array: for \<open>n = 2147483647\<close> and \<open>k = 1\<close> the value \<open>n div k + 1\<close> that is
  assigned to the (empty) slice is \<open>2 ^ 31\<close>, and for \<open>n = 4294967295\<close> and \<open>k = 2\<close> it is
  assigned to the first part; both calls end with OverflowError.
\<close>

theorem dur_chunk_sizes_int32_overflow:
  "dur_chunk_sizes 2147483647 1 = Inl OverflowError
     \<and> dur_chunk_sizes 4294967295 2 = Inl OverflowError"
  by (simp add: dur_chunk_sizes_overflow)

text \<open>
  C6, amended. For \<open>n \<ge> 0\<close> and \<open>k > 0\<close> with \<open>n div k + 1 < 2 ^ 31\<close>, \<open>dur_chunk_sizes n k\<close>
  returns a sequence of length \<open>k\<close> whose sum is \<open>n\<close>: the first \<open>n mod k\<close> parts are the
  ceiling of \<open>n / k\<close>, the other \<open>k - n mod k\<close> parts are its floor, so the largest and the
  smallest part differ by at most one. The parts of \<open>(3, 2)\<close> are \<open>[2, 1]\<close>, those of
  \<open>(5, 3)\<close> are \<open>[2, 2, 1]\<close>, and the parts of \<open>n = 0\<close> are all zero.
\<close>

theorem dur_chunk_sizes_split:
  assumes "0 \<le> n" and "0 < k" and "n div k + 1 < 2 ^ 31"
  shows "\<exists>ret. dur_chunk_sizes n k = Inr ret
           \<and> length ret = nat k
           \<and> sum_list ret = n
           \<and> ret = replicate (nat (n mod k)) \<lceil>real_of_int n / real_of_int k\<rceil>
                   @ replicate (nat (k - n mod k)) \<lfloor>real_of_int n / real_of_int k\<rfloor>
           \<and> Max (set ret) - Min (set ret) \<le> 1
           \<and> (n = 0 \<longrightarrow> ret = replicate (nat k) 0)
           \<and> dur_chunk_sizes 3 2 = Inr [2, 1]
           \<and> dur_chunk_sizes 5 3 = Inr [2, 2, 1]"
proof -
  define ret where "ret = replicate (nat (n mod k)) (n div k + 1) @ replicate (nat (k - n mod k)) (n div k)"
  have m: "0 \<le> n mod k" "n mod k < k"
    using assms by simp_all
  have "0 \<le> n div k"
    using assms(1,2) by (simp add: pos_imp_zdiv_nonneg_iff)
  then have rng: "int32_range (n div k)" "int32_range (n div k + 1)"
    using assms(3) by (simp_all add: int32_range_def)
  have r: "dur_chunk_sizes n k = Inr ret"
    unfolding ret_def by (rule dur_chunk_sizes_eq [OF assms(2) rng])
  have len: "length ret = nat k"
    using m by (simp add: ret_def)
  have sum: "sum_list ret = n"
    unfolding ret_def by (rule chunks_sum [OF assms(2)])
  have fl: "\<lfloor>real_of_int n / real_of_int k\<rfloor> = n div k"
    by (simp add: floor_divide_of_int_eq)
  have shape: "ret = replicate (nat (n mod k)) \<lceil>real_of_int n / real_of_int k\<rceil>
                   @ replicate (nat (k - n mod k)) \<lfloor>real_of_int n / real_of_int k\<rfloor>"
  proof (cases "n mod k = 0")
    case True
    then show ?thesis by (simp add: ret_def fl)
  next
    case False
    then show ?thesis
      using assms(2) by (simp add: ret_def fl ceiling_div_rem)
  qed
  have ne: "set ret \<noteq> {}"
    using len assms(2) by auto
  have sub: "set ret \<subseteq> {n div k, n div k + 1}"
    by (auto simp: ret_def)
  have "Max (set ret) \<le> n div k + 1"
    using ne sub by (intro Max.boundedI) auto
  moreover have "n div k \<le> Min (set ret)"
    using ne sub by (intro Min.boundedI) auto
  ultimately have spread: "Max (set ret) - Min (set ret) \<le> 1"
    by linarith
  have zero: "n = 0 \<longrightarrow> ret = replicate (nat k) 0"
    using assms(2) by (simp add: ret_def)
  have e1: "dur_chunk_sizes 3 2 = Inr [2, 1]"
    by (simp add: dur_chunk_sizes_eq int32_range_def)
  have e2: "dur_chunk_sizes 5 3 = Inr [2, 2, 1]"
    by (simp add: dur_chunk_sizes_eq int32_range_def numeral_eq_Suc)
  from r len sum shape spread zero e1 e2 show ?thesis
    by blast
qed

text \<open>Seven frames in three parts, and the largest count whose single part still fits.\<close>

theorem dur_chunk_sizes_split_witness:
  "(0::int) \<le> 7 \<and> (0::int) < 3 \<and> (7::int) div 3 + 1 < 2 ^ 31
     \<and> dur_chunk_sizes 7 3 = Inr [3, 2, 2] \<and> sum_list [3, 2, 2] = (7::int)
     \<and> (2147483646::int) div 1 + 1 < 2 ^ 31
     \<and> dur_chunk_sizes 2147483646 1 = Inr [2147483646]"
proof -
  have "\<exists>ret. dur_chunk_sizes 7 3 = Inr ret \<and> sum_list ret = 7"
    using dur_chunk_sizes_split [of 7 3] by auto
  moreover have "dur_chunk_sizes 7 3 = Inr [3, 2, 2]"
    by (simp add: dur_chunk_sizes_def int32_range_def Let_def assign_prefix_def slice_index_def
          numeral_eq_Suc)
  moreover have "dur_chunk_sizes 2147483646 1 = Inr [2147483646]"
    using dur_chunk_sizes_split [of 2147483646 1] by auto
  ultimately show ?thesis
    by simp
qed

subsection \<open>Run-length encoding\<close>


lemma run_length_encode_nonempty:
  "run_length_encode xs = Inr rle \<Longrightarrow> rle \<noteq> []"
  by (auto simp: run_length_encode_def split: prod.splits option.splits)



text \<open>
  C3. \<open>run_length_encode\<close> on a sequence of length one: the loop over
  \<^verbatim>\<open>zip(symbols, symbols[1:])\<close> has no iteration, \<open>u1\<close> is unbound when the last run is
  appended, and the call raises UnboundLocalError instead of returning the single run
  \<open>[(5, 1)]\<close>. On a longer sequence the last run is appended.
\<close>

theorem run_length_encode_single:
  "run_length_encode [5::int] = Inl UnboundLocalError
     \<and> run_length_encode [1, 1, 2, 2, 2, 3::int] = Inr [(1, 2), (2, 3), (3, 1)]"
  by (simp add: run_length_encode_def)

subsection \<open>Durations from unit sequences\<close>

lemma update_last:
  assumes "ds \<noteq> []"
  shows "ds[length ds - 1 := ds ! (length ds - 1) + d] = butlast ds @ [last ds + (d::int)]"
proof -
  have "ds = butlast ds @ [last ds]"
    using assms by simp
  then obtain bs l where ds: "ds = bs @ [l]"
    by blast
  show ?thesis
    by (simp add: ds nth_append)
qed

lemma unit_durations_adjusted:
  assumes "run_length_encode (take (slice_index (length texts_padded) text_len) texts_padded) = Inr rle"
      and "sum_list (map snd rle) \<noteq> mel_len"
  shows "durations_from_unit_sequence fname texts_padded text_len mel_len =
           Inr \<lparr>units = map fst rle,
                durs = butlast (map snd rle) @ [last (map snd rle) + (mel_len - sum_list (map snd rle))],
                logged = (if mel_len - sum_list (map snd rle) \<noteq> 1
                          then [FeatureLengthMismatch fname mel_len (sum_list (map snd rle))] else [])\<rparr>"
proof -
  let ?ds = "map snd rle"
  let ?diff = "mel_len - sum_list ?ds"
  let ?ds' = "butlast ?ds @ [last ?ds + ?diff]"
  have ne: "?ds \<noteq> []"
    using run_length_encode_nonempty [OF assms(1)] by simp
  have upd: "?ds[length ?ds - 1 := ?ds ! (length ?ds - 1) + ?diff] = ?ds'"
    by (rule update_last [OF ne])
  have "sum_list ?ds = sum_list (butlast ?ds @ [last ?ds])"
    using ne by simp
  then have sum: "sum_list ?ds' = mel_len"
    by simp
  show ?thesis
    unfolding durations_from_unit_sequence_def Let_def assms(1)
    using assms(2) upd sum by simp
qed


text \<open>
  C2, as the specification states it, fails for a difference of minus one frame: two equal
  units have the natural run-length sum 2, a mel length of 1 gives the difference
  \<open>-1\<close> of magnitude one, and the mismatch is logged.
\<close>

theorem unit_durations_minus_one_logged:
  "run_length_encode [7, 7::int] = Inr [(7, 2)]
     \<and> \<bar>1 - sum_list (map snd [(7::int, 2::int)])\<bar> = 1
     \<and> durations_from_unit_sequence ''utt'' [7, 7::int] 2 1
          = Inr \<lparr>units = [7], durs = [1], logged = [FeatureLengthMismatch ''utt'' 1 2]\<rparr>"
  by (simp add: durations_from_unit_sequence_def slice_index_def run_length_encode_def)

text \<open>
  C2, amended. When the run-length sum of an utterance differs from \<open>mel_len\<close>, only
  the last run's duration changes, by \<open>mel_len\<close> minus that sum; the adjusted durations
  add up to \<open>mel_len\<close>; and the mismatch is logged if and only if the difference is not
  exactly \<open>+1\<close> (one frame too few durations is silent, one frame too many is logged).
\<close>

theorem unit_durations_adjust_last:
  assumes "run_length_encode (take (slice_index (length texts_padded) text_len) texts_padded) = Inr rle"
      and "sum_list (map snd rle) \<noteq> mel_len"
  shows "\<exists>out. durations_from_unit_sequence fname texts_padded text_len mel_len = Inr out
          \<and> units out = map fst rle
          \<and> durs out = butlast (map snd rle) @ [last (map snd rle) + (mel_len - sum_list (map snd rle))]
          \<and> sum_list (durs out) = mel_len
          \<and> (logged out \<noteq> [] \<longleftrightarrow> mel_len - sum_list (map snd rle) \<noteq> 1)"
proof -
  have "sum_list (map snd rle) = sum_list (butlast (map snd rle) @ [last (map snd rle)])"
    using run_length_encode_nonempty [OF assms(1)] by simp
  then have "sum_list (butlast (map snd rle) @ [last (map snd rle) + (mel_len - sum_list (map snd rle))]) = mel_len"
    by simp
  with unit_durations_adjusted [OF assms, of fname] show ?thesis
    by simp
qed

text \<open>
  The amended statement at an utterance of two equal units in a padded row, one frame
  short of its three mel frames: the single run grows from 2 to 3 and nothing is logged.
\<close>

theorem unit_durations_adjust_last_witness:
  "run_length_encode (take (slice_index (length [7, 7, 0::int]) 2) [7, 7, 0::int]) = Inr [(7, 2)]
     \<and> sum_list (map snd [(7::int, 2::int)]) \<noteq> 3
     \<and> durations_from_unit_sequence ''utt'' [7, 7, 0::int] 2 3
          = Inr \<lparr>units = [7], durs = [3], logged = []\<rparr>"
proof -
  have r: "run_length_encode (take (slice_index (length [7, 7, 0::int]) 2) [7, 7, 0::int]) = Inr [(7, 2)]"
    by (simp add: slice_index_def run_length_encode_def)
  have n: "sum_list (map snd [(7::int, 2::int)]) \<noteq> 3"
    by simp
  from unit_durations_adjust_last [OF r n, of "''utt''"]
  obtain out where "durations_from_unit_sequence ''utt'' [7, 7, 0::int] 2 3 = Inr out"
    "units out = [7]" "durs out = [3]" "logged out = []"
    by auto
  then show ?thesis
    using r n by simp
qed

subsection \<open>Durations from attention matrices\<close>

lemma argmax_scan_bound:
  "best < i \<Longrightarrow> fst (argmax_scan (best, bv) i xs) < i + length xs"
proof (induction xs arbitrary: best bv i)
  case Nil
  then show ?case by simp
next
  case (Cons a xs)
  have "fst (argmax_scan (if bv < a then (i, a) else (best, bv)) (Suc i) xs) < Suc i + length xs"
    using Cons.IH [of i "Suc i" a] Cons.IH [of best "Suc i" bv] Cons.prems by auto
  then show ?case by simp
qed

lemma argmax_bound:
  assumes "row \<noteq> []"
  shows "\<exists>i. argmax row = Inr i \<and> i < length row"
proof (cases row)
  case Nil
  with assms show ?thesis by simp
next
  case (Cons x xs)
  have "fst (argmax_scan (0, x) 1 xs) < 1 + length xs"
    by (rule argmax_scan_bound) simp
  then show ?thesis
    by (simp add: argmax_def Cons)
qed

lemma argmax_rows_bound:
  assumes "\<forall>r\<in>set rows. length r = T" and "0 < T"
  shows "\<exists>idx. argmax_rows rows = Inr idx \<and> length idx = length rows \<and> (\<forall>j\<in>set idx. j < T)"
  using assms(1)
proof (induction rows)
  case Nil
  then show ?case by simp
next
  case (Cons r rows)
  then obtain idx where idx: "argmax_rows rows = Inr idx" "length idx = length rows" "\<forall>j\<in>set idx. j < T"
    by auto
  from Cons.prems assms(2) have "r \<noteq> []" "length r = T"
    by auto
  with argmax_bound obtain i where "argmax r = Inr i" "i < T"
    by metis
  with idx show ?case
    by simp
qed


lemma bin_index_id:
  assumes "2 \<le> T" "0 \<le> x" "x \<le> T - 1"
  shows "bin_index 0 (T - 1) T x = x"
proof (cases "x = T - 1")
  case True
  have "(T - 1) * T div (T - 1) = T"
    using assms(1) by simp
  then show ?thesis
    by (simp add: bin_index_def True)
next
  case False
  with assms have lt: "x < T - 1" by simp
  have "x * T = x * (T - 1) + x"
    by (simp add: algebra_simps)
  then have "x * T div (T - 1) = x"
    using lt assms(2) by (simp add: div_pos_pos_trivial)
  then show ?thesis
    using lt by (simp add: bin_index_def)
qed

lemma histc_counts:
  assumes "0 < T" and "\<forall>x\<in>set xs. 0 \<le> x \<and> x < T"
  shows "histc CUDA xs T 0 (T - 1) = Inr (map (\<lambda>b. int (length (filter (\<lambda>x. x = int b) xs))) [0..<nat T])"
proof (cases "T = 1")
  case True
  have all0: "\<forall>x\<in>set xs. x = 0"
    using assms(2) True by auto
  have mm: "xs \<noteq> [] \<Longrightarrow> Min (set xs) = 0 \<and> Max (set xs) = 0"
  proof -
    assume "xs \<noteq> []"
    then have "set xs = {0}"
      using all0 by (cases xs) auto
    then show ?thesis by simp
  qed
  have filt: "filter (\<lambda>x. - 1 \<le> x \<and> x \<le> 1 \<and> bin_index (- 1) 1 1 x = int b) xs = filter (\<lambda>x. x = int b) xs"
    if "b < 1" for b
    using all0 that by (intro filter_cong) (auto simp: bin_index_def)
  show ?thesis
    using mm filt by (cases "xs = []") (simp_all add: histc_def True)
next
  case False
  with assms(1) have T: "2 \<le> T" by simp
  have filt: "filter (\<lambda>x. 0 \<le> x \<and> x < T \<and> bin_index 0 (T - 1) T x = int b) xs = filter (\<lambda>x. x = int b) xs"
    for b
    using assms(2) bin_index_id [OF T] by (intro filter_cong) auto
  show ?thesis
    using T by (simp add: histc_def filt)
qed



lemma one_hot_app:
  assumes "k < T"
  shows "one_hot T k = replicate k 0 @ 1 # replicate (T - Suc k) 0"
proof -
  have "T = k + Suc (T - Suc k)"
    using assms by simp
  then have "replicate T (0::real) = replicate k 0 @ 0 # replicate (T - Suc k) 0"
    by (metis replicate_add replicate_Suc)
  then show ?thesis
    by (simp add: one_hot_def list_update_append)
qed

lemma argmax_scan_append:
  "argmax_scan p i (xs @ ys) = argmax_scan (argmax_scan p i xs) (i + length xs) ys"
proof (induction xs arbitrary: p i)
  case Nil
  then show ?case by (cases p) simp
next
  case (Cons x xs)
  obtain best bv where p: "p = (best, bv)" by (cases p)
  show ?case
    unfolding p by (simp add: Cons.IH)
qed

lemma argmax_scan_zeros:
  "0 \<le> bv \<Longrightarrow> argmax_scan (best, bv) i (replicate n 0) = (best, bv)"
  by (induction n arbitrary: i) simp_all

lemma argmax_one_hot:
  assumes "k < T"
  shows "argmax (one_hot T k) = Inr k"
proof (cases k)
  case 0
  then show ?thesis
    using assms by (simp add: one_hot_app argmax_def argmax_scan_zeros)
next
  case (Suc j)
  have "one_hot T k = 0 # (replicate j 0 @ 1 # replicate (T - Suc k) 0)"
    using assms by (simp add: one_hot_app Suc)
  then show ?thesis
    by (simp add: argmax_def argmax_scan_append argmax_scan_zeros Suc)
qed

lemma argmax_rows_append:
  "argmax_rows (xs @ ys) =
     (case argmax_rows xs of Inl e \<Rightarrow> Inl e
      | Inr a \<Rightarrow> (case argmax_rows ys of Inl e \<Rightarrow> Inl e | Inr b \<Rightarrow> Inr (a @ b)))"
  by (induction xs) (auto split: sum.splits)

lemma argmax_rows_replicate:
  "argmax r = Inr i \<Longrightarrow> argmax_rows (replicate n r) = Inr (replicate n i)"
  by (induction n) simp_all

lemma argmax_rows_one_hot:
  assumes "\<forall>(k, d)\<in>set ps. k < T"
  shows "argmax_rows (concat (map (\<lambda>(k, d). replicate (nat d) (one_hot T k)) ps))
           = Inr (concat (map (\<lambda>(k, d). replicate (nat d) k) ps))"
  using assms
proof (induction ps)
  case Nil
  then show ?case by simp
next
  case (Cons p ps)
  obtain k d where p: "p = (k, d)" by (cases p)
  with Cons.prems have "k < T" by simp
  then have "argmax_rows (replicate (nat d) (one_hot T k)) = Inr (replicate (nat d) k)"
    by (intro argmax_rows_replicate argmax_one_hot)
  moreover have "argmax_rows (concat (map (\<lambda>(k, d). replicate (nat d) (one_hot T k)) ps))
           = Inr (concat (map (\<lambda>(k, d). replicate (nat d) k) ps))"
    using Cons by simp
  ultimately show ?case
    by (simp add: p argmax_rows_append)
qed

lemma count_map_int:
  "length (filter (\<lambda>x. x = int b) (map int idx)) = length (filter (\<lambda>k. k = b) idx)"
  by (induction idx) auto

lemma enumerate_counts:
  "length (filter (\<lambda>k. k = b) (concat (map (\<lambda>(k, d). replicate (nat d) k) (enumerate n ds))))
     = (if n \<le> b \<and> b < n + length ds then nat (ds ! (b - n)) else 0)"
proof (induction ds arbitrary: n)
  case Nil
  then show ?case by simp
next
  case (Cons d ds)
  have here: "length (filter (\<lambda>k. k = b) (replicate (nat d) n)) = (if n = b then nat d else 0)"
    by simp
  have "length (filter (\<lambda>k. k = b) (concat (map (\<lambda>(k, d). replicate (nat d) k) (enumerate n (d # ds)))))
          = (if n = b then nat d else 0)
            + (if Suc n \<le> b \<and> b < Suc n + length ds then nat (ds ! (b - Suc n)) else 0)"
    unfolding enumerate_simps list.map concat.simps filter_append length_append prod.case
    unfolding here Cons.IH ..
  also have "\<dots> = (if n \<le> b \<and> b < n + length (d # ds) then nat ((d # ds) ! (b - n)) else 0)"
    by (auto simp: nth_Cons')
  finally show ?case .
qed

lemma one_hot_rows_count:
  "\<forall>d\<in>set ds. 0 \<le> d \<Longrightarrow>
     length (concat (map (\<lambda>(k, d). replicate (nat d) (one_hot T k)) (enumerate n ds))) = nat (sum_list ds)"
proof (induction ds arbitrary: n)
  case Nil
  then show ?case by simp
next
  case (Cons d ds)
  then have "0 \<le> d" "0 \<le> sum_list ds"
    by (auto intro: sum_list_nonneg)
  with Cons show ?case
    by (simp add: nat_add_distrib)
qed

lemma durations_from_one_hot:
  assumes "ds \<noteq> []" and "\<forall>d\<in>set ds. 0 \<le> d"
  shows "durations_from_attention CUDA (one_hot_alignment ds) (sum_list ds) (int (length ds)) = Inr ds"
proof -
  let ?T = "length ds"
  let ?rows = "one_hot_alignment ds"
  let ?idx = "concat (map (\<lambda>(k, d). replicate (nat d) k) (enumerate 0 ds))"
  have T: "0 < int ?T"
    using assms(1) by simp
  have nrows: "length ?rows = nat (sum_list ds)"
    unfolding one_hot_alignment_def by (rule one_hot_rows_count [OF assms(2)])
  have s0: "0 \<le> sum_list ds"
    using assms(2) by (auto intro: sum_list_nonneg)
  have take_rows: "take (slice_index (length ?rows) (sum_list ds)) ?rows = ?rows"
    using s0 by (simp add: slice_index_def nrows)
  have len_rows: "\<forall>r\<in>set ?rows. length r = ?T"
    by (auto simp: one_hot_alignment_def one_hot_def)
  have take_cols: "map (\<lambda>row. take (slice_index (length row) (int ?T)) row) ?rows = ?rows"
    using len_rows by (intro map_idI) (simp add: slice_index_def)
  have ks: "\<forall>(k, d)\<in>set (enumerate 0 ds). k < ?T"
    by (auto simp: in_set_enumerate_eq)
  have am: "argmax_rows ?rows = Inr ?idx"
    unfolding one_hot_alignment_def by (rule argmax_rows_one_hot [OF ks])
  have rng: "\<forall>x\<in>set (map int ?idx). 0 \<le> x \<and> x < int ?T"
    using ks by auto
  have h: "histc CUDA (map int ?idx) (int ?T) 0 (int ?T - 1)
             = Inr (map (\<lambda>b. int (length (filter (\<lambda>x. x = int b) (map int ?idx)))) [0..<nat (int ?T)])"
    by (rule histc_counts [OF T rng])
  have "map (\<lambda>b. int (length (filter (\<lambda>x. x = int b) (map int ?idx)))) [0..<?T] = map (\<lambda>b. ds ! b) [0..<?T]"
    using assms(2) unfolding count_map_int by (intro map_cong) (simp_all add: enumerate_counts)
  also have "\<dots> = ds"
    by (rule map_nth)
  finally have cnt: "map (\<lambda>b. int (length (filter (\<lambda>x. x = int b) (map int ?idx)))) [0..<?T] = ds" .
  show ?thesis
    unfolding durations_from_attention_def Let_def take_rows take_cols am
    using h cnt by simp
qed

text \<open>
  On the CPU the same alignments end in the RuntimeError of \<^verbatim>\<open>torch.histc\<close>, whatever
  their entries are.
\<close>

lemma durations_from_attention_cpu:
  assumes "0 < text_len" and "\<forall>row\<in>set ali. nat text_len \<le> length row"
  shows "durations_from_attention CPU ali mel_len text_len = Inl RuntimeError"
proof -
  let ?ali = "map (\<lambda>row. take (slice_index (length row) text_len) row)
                    (take (slice_index (length ali) mel_len) ali)"
  have cols: "\<forall>r\<in>set ?ali. length r = nat text_len"
    using assms by (auto simp: slice_index_def dest: in_set_takeD)
  from argmax_rows_bound [OF cols] assms(1)
  obtain idx where idx: "argmax_rows ?ali = Inr idx"
    by auto
  show ?thesis
    unfolding durations_from_attention_def Let_def idx by (simp add: histc_def)
qed

text \<open>
  C7. Without \<^verbatim>\<open>--cuda\<close> the tensors are on the CPU, and the attention strategy returns
  no duration vector: the indices that \<^verbatim>\<open>torch.argmax\<close> returns are 64-bit integers,
  \<^verbatim>\<open>torch.histc\<close> is called on them as they are, and it raises RuntimeError. This is so
  for an alignment of three frames over two symbols, and for the one-hot alignment
  that realises the durations \<open>[2, 0, 1]\<close>, where the specification recovers \<open>[2, 0, 1]\<close>.
\<close>

theorem attention_durations_cpu_raises:
  "durations_from_attention CPU [[1 / 10, 9 / 10, 0], [4 / 5, 1 / 5, 0], [3 / 10, 7 / 10, 0], [0, 0, 0]] 3 2
     = Inl RuntimeError
   \<and> durations_from_attention CPU (one_hot_alignment [2, 0, 1]) 3 3 = Inl RuntimeError"
proof -
  have "\<forall>row\<in>set (one_hot_alignment [2, 0, 1]). nat 3 \<le> length row"
    by (auto simp: one_hot_alignment_def one_hot_def)
  then show ?thesis
    by (simp add: durations_from_attention_cpu)
qed

subsection \<open>Parsing alignment tiers\<close>

lemma parse_loop_eq:
  assumes "hop \<noteq> 0"
  shows "parse_loop i n ts sr hop phones durations =
           Inr (phones @ map (\<lambda>(j, t). if interval_text t \<notin> set sil_phones then interval_text t
                                       else if j = 0 \<or> int j = int n - 1 then ''sil'' else ''sp'')
                             (enumerate i ts),
                durations @ map (\<lambda>t. \<lceil>end_time t * real_of_int sr / real_of_int hop\<rceil>
                                       - \<lceil>start_time t * real_of_int sr / real_of_int hop\<rceil>) ts)"
  using assms
proof (induction ts arbitrary: i phones durations)
  case Nil
  then show ?case by simp
next
  case (Cons t ts)
  show ?case
    using Cons.prems by (simp add: Let_def Cons.IH [OF Cons.prems])
qed

lemma parse_textgrid_eq:
  assumes "tier \<noteq> []" and "hop \<noteq> 0"
  shows "parse_textgrid tier sr hop =
           Inr (map (\<lambda>(j, t). if interval_text t \<notin> set sil_phones then interval_text t
                               else if j = 0 \<or> int j = int (length tier) - 1 then ''sil'' else ''sp'')
                    (enumerate 0 tier),
                map (\<lambda>t. \<lceil>end_time t * real_of_int sr / real_of_int hop\<rceil>
                          - \<lceil>start_time t * real_of_int sr / real_of_int hop\<rceil>) tier,
                start_time (hd tier), end_time (last tier))"
proof -
  obtain t ts where "tier = t # ts"
    using assms(1) by (cases tier) auto
  then show ?thesis
    unfolding parse_textgrid_def parse_loop_eq [OF assms(2)] by simp
qed


text \<open>
  C8. On a tier with at least one interval, \<open>parse_textgrid\<close> returns one label per
  interval: a label of the silence set \<open>{"sil", "sp", "spn", ""}\<close> becomes \<open>"sil"\<close> at the
  first and at the last position and \<open>"sp"\<close> elsewhere, every other label is kept. So a
  first or last interval labelled \<open>""\<close> gives \<open>"sil"\<close>, and an interior \<open>"sp"\<close> stays \<open>"sp"\<close>.
\<close>

theorem parse_textgrid_labels:
  assumes "tier \<noteq> []" and "hop_length \<noteq> 0"
  shows "\<exists>phones durations.
           parse_textgrid tier sampling_rate hop_length
             = Inr (phones, durations, start_time (hd tier), end_time (last tier))
           \<and> length phones = length tier
           \<and> (\<forall>i<length tier.
                 phones ! i =
                   (if interval_text (tier ! i) \<in> {''sil'', ''sp'', ''spn'', ''''}
                    then (if i = 0 \<or> i = length tier - 1 then ''sil'' else ''sp'')
                    else interval_text (tier ! i)))
           \<and> (interval_text (hd tier) = '''' \<longrightarrow> hd phones = ''sil'')
           \<and> (interval_text (last tier) = '''' \<longrightarrow> last phones = ''sil'')
           \<and> (\<forall>i. 0 < i \<and> i < length tier - 1 \<and> interval_text (tier ! i) = ''sp'' \<longrightarrow> phones ! i = ''sp'')"
proof -
  define phones where "phones = map (\<lambda>(j, t). if interval_text t \<notin> set sil_phones then interval_text t
                               else if j = 0 \<or> int j = int (length tier) - 1 then ''sil'' else ''sp'')
                    (enumerate 0 tier)"
  define durations where "durations = map (\<lambda>t. \<lceil>end_time t * real_of_int sampling_rate / real_of_int hop_length\<rceil>
                          - \<lceil>start_time t * real_of_int sampling_rate / real_of_int hop_length\<rceil>) tier"
  have r: "parse_textgrid tier sampling_rate hop_length
             = Inr (phones, durations, start_time (hd tier), end_time (last tier))"
    unfolding phones_def durations_def by (rule parse_textgrid_eq [OF assms])
  have len: "length phones = length tier"
    by (simp add: phones_def)
  have n: "0 < length tier"
    using assms(1) by simp
  have nth: "phones ! i =
                   (if interval_text (tier ! i) \<in> {''sil'', ''sp'', ''spn'', ''''}
                    then (if i = 0 \<or> i = length tier - 1 then ''sil'' else ''sp'')
                    else interval_text (tier ! i))" if "i < length tier" for i
  proof -
    have "int i = int (length tier) - 1 \<longleftrightarrow> i = length tier - 1"
      using n by arith
    then show ?thesis
      using that by (simp add: phones_def nth_enumerate_eq sil_phones_def)
  qed
  have pne: "phones \<noteq> []"
    using len n by auto
  have first: "hd phones = ''sil''" if "interval_text (hd tier) = ''''"
    using nth [of 0] n that by (simp add: hd_conv_nth [OF pne] hd_conv_nth [OF assms(1)])
  have final: "last phones = ''sil''" if "interval_text (last tier) = ''''"
    using nth [of "length tier - 1"] n that
    by (simp add: last_conv_nth [OF pne] last_conv_nth [OF assms(1)] len)
  have inner: "phones ! i = ''sp''" if "0 < i \<and> i < length tier - 1 \<and> interval_text (tier ! i) = ''sp''" for i
  proof -
    from that have "i < length tier" "i \<noteq> 0" "i \<noteq> length tier - 1"
      by auto
    with nth [of i] that show ?thesis
      by simp
  qed
  from r len nth first final inner show ?thesis
    by blast
qed

text \<open>A tier of four intervals: empty label, a phone, an interior pause, empty label.\<close>

theorem parse_textgrid_labels_witness:
  "[\<lparr>start_time = 0, end_time = 1, interval_text = ''''\<rparr>,
    \<lparr>start_time = 1, end_time = 2, interval_text = ''a''\<rparr>,
    \<lparr>start_time = 2, end_time = 3, interval_text = ''sp''\<rparr>,
    \<lparr>start_time = 3, end_time = 4, interval_text = ''''\<rparr>] \<noteq> []
   \<and> (1::int) \<noteq> 0
   \<and> (\<exists>phones durations.
         parse_textgrid
           [\<lparr>start_time = 0, end_time = 1, interval_text = ''''\<rparr>,
            \<lparr>start_time = 1, end_time = 2, interval_text = ''a''\<rparr>,
            \<lparr>start_time = 2, end_time = 3, interval_text = ''sp''\<rparr>,
            \<lparr>start_time = 3, end_time = 4, interval_text = ''''\<rparr>] 2 1
           = Inr (phones, durations, 0, 4)
         \<and> hd phones = ''sil'' \<and> last phones = ''sil'' \<and> phones ! 2 = ''sp'')"
  using parse_textgrid_labels
    [of "[\<lparr>start_time = 0, end_time = 1, interval_text = ''''\<rparr>,
          \<lparr>start_time = 1, end_time = 2, interval_text = ''a''\<rparr>,
          \<lparr>start_time = 2, end_time = 3, interval_text = ''sp''\<rparr>,
          \<lparr>start_time = 3, end_time = 4, interval_text = ''''\<rparr>]" 1 2]
  by auto

subsection \<open>The durations that are saved\<close>












subsection \<open>Start-up checks\<close>

text \<open>
  C4. With only \<^verbatim>\<open>--extract-pitch-mel\<close> and no duration strategy the start-up checks pass:
  the assertion is guarded by \<open>extract_pitch_char\<close> alone. The run then saves the mels
  of the first batch and stops in the pitch stage, where \<open>durations\<close> is unbound. With
  \<^verbatim>\<open>--extract-pitch-char\<close> instead, the assertion stops it before any batch.
\<close>

theorem pitch_mel_without_durations:
  "check_args \<lparr>extract_mels_teacher = False, extract_durations = False, extract_attentions = False,
        extract_pitch_mel = True, extract_pitch_char = False, extract_pitch_trichar = False,
        extract_durs_from_textgrids = False, extract_durs_from_unit_sequences = False,
        trim_silence = None\<rparr> [] = Inr ()
   \<and> main_first_batch \<lparr>extract_mels_teacher = False, extract_durations = False, extract_attentions = False,
        extract_pitch_mel = True, extract_pitch_char = False, extract_pitch_trichar = False,
        extract_durs_from_textgrids = False, extract_durs_from_unit_sequences = False,
        trim_silence = None\<rparr> [] = ([SaveMels], Some UnboundLocalError)
   \<and> main_first_batch \<lparr>extract_mels_teacher = False, extract_durations = False, extract_attentions = False,
        extract_pitch_mel = False, extract_pitch_char = True, extract_pitch_trichar = False,
        extract_durs_from_textgrids = False, extract_durs_from_unit_sequences = False,
        trim_silence = None\<rparr> [] = ([], Some AssertionError)"
  by (simp add: check_args_def main_first_batch_def first_batch_def)

subsection \<open>Silence trimming\<close>

text \<open>
  C1. The utterance of the specification's example, \<open>["sil", "a", "b"]\<close> with durations \<open>[10, 3, 4]\<close> over 17
  mel frames, numbered here from 0, and \<open>keep_sil_frames = 0\<close>. The branch for a single
  silence compares the duration of that silence, 10, with 0 and with \<^verbatim>\<open>len(texts) - 1\<close>,
  not its position. As the first utterance of a batch of one, neither comparison holds,
  \<open>trim_start\<close> and \<open>trim_end\<close> are unbound and the run stops with UnboundLocalError.
  In a batch of eleven utterances the duration equals \<^verbatim>\<open>len(texts) - 1\<close>, the trailing
  branch is taken, and the last ten frames are cut instead of the first ten: the frames
  0 to 6 are kept where the specification keeps the frames 10 to 16, and both assertions pass.
\<close>

theorem trim_leading_silence_unbound:
  "keep_sil_frames 0 22050 256 = Inr 0
   \<and> trim_utterance 0 0 1 None [''sil'', ''a'', ''b''] [10, 3, 4] [0..<17] 17 (Some [0, 1, 2])
       = Inl UnboundLocalError
   \<and> trim_utterance 0 0 11 None [''sil'', ''a'', ''b''] [10, 3, 4] [0..<17] 17 (Some [0, 1, 2])
       = Inr \<lparr>t_text = [''a'', ''b''], t_mel = [0..<7], t_dur = [3, 4], t_pitch = [1, 2],
              t_bounds = (PyNone, PyInt (- 10))\<rparr>"
  by (simp add: keep_sil_frames_def trim_utterance_def Let_def py_slice_def slice_index_def
        mask_select_def upt_rec)

subsection \<open>Pitch normalisation\<close>

lemma sum_list_const:
  "\<forall>x\<in>set xs. x = c \<Longrightarrow> sum_list xs = real (length xs) * c"
  by (induction xs) (simp_all add: algebra_simps)

lemma in_set_nonempty: "x \<in> set ys \<Longrightarrow> ys \<noteq> []"
  by auto

lemma np_std_zero_iff:
  assumes "xs \<noteq> []"
  shows "np_std xs = 0 \<longleftrightarrow> (\<forall>x\<in>set xs. \<forall>y\<in>set xs. x = y)"
proof -
  let ?m = "np_mean xs"
  have n: "0 < real (length xs)"
    using assms by simp
  have "np_std xs = 0 \<longleftrightarrow> sum_list (map (\<lambda>x. (x - ?m)\<^sup>2) xs) = 0"
    using n by (simp add: np_std_def np_mean_def [of "map f xs" for f])
  also have "\<dots> \<longleftrightarrow> (\<forall>x\<in>set xs. x = ?m)"
    by (subst sum_list_nonneg_eq_0_iff) auto
  also have "\<dots> \<longleftrightarrow> (\<forall>x\<in>set xs. \<forall>y\<in>set xs. x = y)"
  proof
    assume "\<forall>x\<in>set xs. x = ?m"
    then show "\<forall>x\<in>set xs. \<forall>y\<in>set xs. x = y"
      by metis
  next
    assume eq: "\<forall>x\<in>set xs. \<forall>y\<in>set xs. x = y"
    have "hd xs \<in> set xs"
      using assms by simp
    with eq have all: "\<forall>x\<in>set xs. x = hd xs"
      by blast
    have "?m = hd xs"
      using n by (simp add: np_mean_def sum_list_const [OF all])
    with all show "\<forall>x\<in>set xs. x = ?m"
      by simp
  qed
  finally show ?thesis .
qed

lemma fold_zero_length:
  "length (fold (\<lambda>i w. w[i := 0::real]) idxs v) = length v"
  by (induction idxs arbitrary: v) simp_all

lemma fold_zero_nth:
  "i < length v \<Longrightarrow> fold (\<lambda>i w. w[i := 0::real]) idxs v ! i = (if i \<in> set idxs then 0 else v ! i)"
  by (induction idxs arbitrary: v) (auto simp: fold_zero_length nth_list_update)

lemma set_zero_idxs: "set (zero_idxs v) = {i. i < length v \<and> v ! i = 0}"
  by (auto simp: zero_idxs_def)

lemma normalize_vector_length: "length (normalize_vector m s v) = length v"
  by (simp add: normalize_vector_def Let_def fold_zero_length)

lemma normalize_vector_nth:
  assumes "i < length v"
  shows "normalize_vector m s v ! i = (if v ! i = 0 then 0 else (v ! i - m) / s)"
  using assms by (simp add: normalize_vector_def Let_def fold_zero_nth set_zero_idxs)

lemma normalize_pitch_vectors_defined:
  assumes "\<exists>x\<in>set (pooled_nonzeros pv).
             \<exists>y\<in>set (pooled_nonzeros pv). x \<noteq> y"
  shows "normalize_pitch_vectors pv =
           Inr (map (\<lambda>(k, v). (k, normalize_vector (np_mean (pooled_nonzeros pv))
                                       (np_std (pooled_nonzeros pv)) v)) pv,
                np_mean (pooled_nonzeros pv),
                np_std (pooled_nonzeros pv))"
proof -
  let ?pool = "pooled_nonzeros pv"
  from assms obtain x where "x \<in> set ?pool"
    by blast
  then have ne: "?pool \<noteq> []"
    by (rule in_set_nonempty)
  then have pv: "pv \<noteq> []"
    by (auto simp: pooled_nonzeros_def)
  have "np_std ?pool \<noteq> 0"
    using assms np_std_zero_iff [OF ne] by blast
  with ne pv show ?thesis
    by (simp add: normalize_pitch_vectors_def Let_def)
qed

text \<open>
  C9, as the specification states it, fails where a voiced value equals the mean: the vector
  \<open>[7, 1, 5, 3, 4, 0]\<close> has the mean 4 and the standard deviation 2 over its non-zero
  values, the entry 4 is mapped to 0, and the zero-valued indices grow from \<open>[5]\<close> to
  \<open>[4, 5]\<close>.
\<close>

theorem normalize_zero_set_grows:
  "normalize_pitch_vectors [(''utt'', [7, 1, 5, 3, 4, 0])]
     = Inr ([(''utt'', [3 / 2, - 3 / 2, 1 / 2, - 1 / 2, 0, 0])], 4, 2)
   \<and> zero_idxs [7, 1, 5, 3, 4, 0] = [5]
   \<and> zero_idxs [3 / 2, - 3 / 2, 1 / 2, - 1 / 2, 0, 0] = [4, 5]"
proof -
  have pool: "pooled_nonzeros [(''utt'', [7, 1, 5, 3, 4, 0])] = [7, 1, 5, 3, 4]"
    by (simp add: pooled_nonzeros_def nonzero_values_def)
  have m: "np_mean [7, 1, 5, 3, 4] = 4"
    by (simp add: np_mean_def)
  have "np_mean (map (\<lambda>x. (x - 4)\<^sup>2) [7, 1, 5, 3, 4]) = 4"
    by (simp add: np_mean_def)
  then have s: "np_std [7, 1, 5, 3, 4] = 2"
    by (simp add: np_std_def m)
  have z: "zero_idxs [7, 1, 5, 3, 4, 0] = [5]"
    by (simp add: zero_idxs_def upt_rec)
  have n: "normalize_vector 4 2 [7, 1, 5, 3, 4, 0] = [3 / 2, - 3 / 2, 1 / 2, - 1 / 2, 0, 0]"
    by (simp add: normalize_vector_def z)
  have z': "zero_idxs [3 / 2, - 3 / 2, 1 / 2, - 1 / 2, 0, 0] = [4, 5]"
    by (simp add: zero_idxs_def upt_rec)
  have "normalize_pitch_vectors [(''utt'', [7, 1, 5, 3, 4, 0])]
          = Inr ([(''utt'', normalize_vector 4 2 [7, 1, 5, 3, 4, 0])], 4, 2)"
    by (simp add: normalize_pitch_vectors_def pool m s)
  with n z z' show ?thesis
    by simp
qed

text \<open>
  C9, amended. When the pooled non-zero values hold two distinct values, the pass
  returns the mean and the population standard deviation of the pooled values; in every
  stored vector each entry that was zero is zero again and each entry \<open>v\<close> that was not
  zero is \<open>(v - mean) / std\<close>; and the zero-valued indices of a vector before the pass
  are zero-valued after it (an entry equal to the mean joins them).
\<close>

theorem normalize_pitch_vectors_pass:
  assumes "\<exists>x\<in>set (pooled_nonzeros pv). \<exists>y\<in>set (pooled_nonzeros pv). x \<noteq> y"
  shows "\<exists>pv'. normalize_pitch_vectors pv
                 = Inr (pv', np_mean (pooled_nonzeros pv), np_std (pooled_nonzeros pv))
           \<and> map fst pv' = map fst pv
           \<and> (\<forall>j<length pv.
                 length (snd (pv' ! j)) = length (snd (pv ! j))
               \<and> (\<forall>i<length (snd (pv ! j)).
                     (snd (pv ! j) ! i = 0 \<longrightarrow> snd (pv' ! j) ! i = 0)
                   \<and> (snd (pv ! j) ! i \<noteq> 0 \<longrightarrow>
                        snd (pv' ! j) ! i
                          = (snd (pv ! j) ! i - np_mean (pooled_nonzeros pv)) / np_std (pooled_nonzeros pv)))
               \<and> set (zero_idxs (snd (pv ! j))) \<subseteq> set (zero_idxs (snd (pv' ! j))))"
proof -
  let ?m = "np_mean (pooled_nonzeros pv)"
  let ?s = "np_std (pooled_nonzeros pv)"
  define pv' where "pv' = map (\<lambda>(k, v). (k, normalize_vector ?m ?s v)) pv"
  have r: "normalize_pitch_vectors pv = Inr (pv', ?m, ?s)"
    unfolding pv'_def by (rule normalize_pitch_vectors_defined [OF assms])
  have keys: "map fst pv' = map fst pv"
    by (auto simp: pv'_def)
  have vec: "snd (pv' ! j) = normalize_vector ?m ?s (snd (pv ! j))" if "j < length pv" for j
    using that by (simp add: pv'_def case_prod_unfold)
  have each: "length (snd (pv' ! j)) = length (snd (pv ! j))
               \<and> (\<forall>i<length (snd (pv ! j)).
                     (snd (pv ! j) ! i = 0 \<longrightarrow> snd (pv' ! j) ! i = 0)
                   \<and> (snd (pv ! j) ! i \<noteq> 0 \<longrightarrow> snd (pv' ! j) ! i = (snd (pv ! j) ! i - ?m) / ?s))
               \<and> set (zero_idxs (snd (pv ! j))) \<subseteq> set (zero_idxs (snd (pv' ! j)))"
    if "j < length pv" for j
    unfolding vec [OF that]
    by (auto simp: normalize_vector_length normalize_vector_nth set_zero_idxs)
  from r keys each show ?thesis
    by blast
qed

text \<open>One vector with the voiced values 1 and 3 around an unvoiced frame.\<close>

theorem normalize_pitch_vectors_pass_witness:
  "(\<exists>x\<in>set (pooled_nonzeros [(''a'', [1, 0, 3])]). \<exists>y\<in>set (pooled_nonzeros [(''a'', [1, 0, 3])]). x \<noteq> y)
   \<and> normalize_pitch_vectors [(''a'', [1, 0, 3])] = Inr ([(''a'', [- 1, 0, 1])], 2, 1)"
proof -
  have pool: "pooled_nonzeros [(''a'', [1, 0, 3])] = [1, 3]"
    by (simp add: pooled_nonzeros_def nonzero_values_def)
  have h: "\<exists>x\<in>set (pooled_nonzeros [(''a'', [1, 0, 3])]). \<exists>y\<in>set (pooled_nonzeros [(''a'', [1, 0, 3])]). x \<noteq> y"
    unfolding pool by auto
  have m: "np_mean [1, 3] = 2"
    by (simp add: np_mean_def)
  have s: "np_std [1, 3] = 1"
    by (simp add: np_std_def m) (simp add: np_mean_def)
  from normalize_pitch_vectors_pass [OF h] obtain pv' where
    r: "normalize_pitch_vectors [(''a'', [1, 0, 3])] = Inr (pv', 2, 1)"
    and k: "map fst pv' = [''a'']"
    and v: "length (snd (pv' ! 0)) = 3" "snd (pv' ! 0) ! 0 = - 1" "snd (pv' ! 0) ! 1 = 0" "snd (pv' ! 0) ! 2 = 1"
    unfolding pool m s by fastforce
  from k obtain w where pv': "pv' = [(''a'', w)]"
    by (cases pv') auto
  with v have "w = [- 1, 0, 1]"
    by (auto simp: length_Suc_conv numeral_3_eq_3)
  with r pv' h show ?thesis
    by simp
qed

end
